theory Spec2Isabelle
  imports Main "HOL-Library.Sublist"
begin

section \<open>Python values and exceptions\<close>

text \<open>
  The values a configuration dictionary holds (\<open>Dict[str, Any]\<close>): the kinds of value a
  JSON document gives, with integers for its numbers.
\<close>

datatype pyval =
    PNone
  | PBool bool
  | PInt int
  | PStr string
  | PList "pyval list"
  | PDict "(string \<times> pyval) list"

text \<open>
  The text of an exception. The two messages the factory builds with f-strings are kept
  with the values they interpolate:
  \<^verbatim>\<open>f"Unknown agent type: {agent_type}. Available types: {list(self.registered_agents.keys())}"\<close>
  and \<^verbatim>\<open>f"Agent '{agent_name}' missing 'type' field"\<close>. Any other text is \<open>Text\<close>.
\<close>

datatype errmsg =
    Unknown_agent_type pyval "string list"
  | Missing_type_field string
  | Text string

text \<open>
  A raised Python exception. \<open>Exception\<close> stands for an instance of any other subclass of
  Python's \<open>Exception\<close>; \<open>BaseException\<close> for an instance of a class outside it
  (\<open>KeyboardInterrupt\<close>, \<open>SystemExit\<close>, and \<open>asyncio.CancelledError\<close> from Python 3.8 on, the
  oldest version setup.py admits). A clause \<^verbatim>\<open>except Exception\<close> catches exactly the
  exceptions for which \<open>is_Exception\<close> holds.
\<close>

datatype exn =
    ValueError errmsg
  | TypeError errmsg
  | Exception string
  | BaseException string

fun is_Exception :: "exn \<Rightarrow> bool" where
  "is_Exception (BaseException s) = False"
| "is_Exception e = True"

section \<open>The event bus (Base/event_bus.py)\<close>

text \<open>
  \<open>msg_data\<close>, the dictionary \<open>publish\<close> builds, with its four keys. The timestamp is
  \<^verbatim>\<open>datetime.now().isoformat()\<close>; the clock is an input of the model. No code of the
  repository writes to the dictionary once \<open>publish\<close> has built it, so it is a value here.
\<close>

record 'm envelope =
  timestamp :: string
  topic :: string
  source :: string
  message :: 'm

text \<open>
  A subscriber is a Python callable. The registry holds callables by identity, so the model
  holds identifiers, and an environment \<open>cbs\<close> gives the behaviour of each identifier.

  A callable runs with the whole program state within reach: the bus itself (the agents of
  this repository publish from inside \<open>process_message\<close>), and whatever else it owns. The
  state is therefore the record of the bus, and the extension slot of the record is the
  rest of the program state. A callable returns normally (\<open>None\<close>) or raises
  (\<open>Some e\<close>); what it changed before raising stays changed.
\<close>

type_synonym callback_id = nat

record 'm EventBus =
  subscribers :: "string \<rightharpoonup> callback_id list"
  message_history :: "'m envelope list"

type_synonym ('m, 'z) state = "('m, 'z) EventBus_scheme"

type_synonym ('m, 'z) callback =
  "'m envelope \<Rightarrow> ('m, 'z) state \<Rightarrow> exn option \<times> ('m, 'z) state"

text \<open>\<^verbatim>\<open>EventBus.__init__\<close>: no subscribers, empty history.\<close>

definition EventBus_init :: "'m EventBus" where
  "EventBus_init = \<lparr>subscribers = Map.empty, message_history = []\<rparr>"

text \<open>
  \<^verbatim>\<open>
  def subscribe(self, topic, callback):
      if topic not in self.subscribers:
          self.subscribers[topic] = []
      self.subscribers[topic].append(callback)
      return True
  \<close>
\<close>

definition subscribe :: "string \<Rightarrow> callback_id \<Rightarrow> ('m, 'z) state \<Rightarrow> bool \<times> ('m, 'z) state" where
  "subscribe tp cb w =
     (let subs = (if tp \<notin> dom (subscribers w) then (subscribers w)(tp \<mapsto> []) else subscribers w)
      in (True, w\<lparr>subscribers := subs(tp \<mapsto> the (subs tp) @ [cb])\<rparr>))"

text \<open>
  The delivery loop of \<open>publish\<close>:
  \<^verbatim>\<open>
  for callback in self.subscribers[topic]:
      await callback(msg_data)
  \<close>
  Python's list iterator keeps an index into the list object and compares it with the
  current length at every step, so a callback appended to that list while the loop runs is
  reached by the same loop. \<open>subscribe\<close> appends to the list object in place and nothing in
  the bus replaces or removes it, so the list the iterator holds is the topic's entry of
  the registry at every step. The loop need not end (a callback may subscribe again each
  time it runs): the result is an option, \<open>None\<close> for a loop that never returns.

  The result holds the exception that left the loop, if any, the callbacks the loop
  invoked, in order, and the state.
\<close>

partial_function (option) deliver ::
  "(callback_id \<Rightarrow> ('m, 'z) callback) \<Rightarrow> string \<Rightarrow> 'm envelope \<Rightarrow> nat \<Rightarrow> ('m, 'z) state \<Rightarrow>
   (exn option \<times> callback_id list \<times> ('m, 'z) state) option"
where
  "deliver cbs tp msg_data i w =
     (let l = (case subscribers w tp of None \<Rightarrow> [] | Some l \<Rightarrow> l) in
      if i < length l then
        (case cbs (l ! i) msg_data w of
           (Some e, w') \<Rightarrow> Some (Some e, [l ! i], w')
         | (None, w') \<Rightarrow>
             Option.bind (deliver cbs tp msg_data (Suc i) w')
               (\<lambda>(r, called, w''). Some (r, (l ! i) # called, w'')))
      else Some (None, [], w))"

text \<open>
  \<^verbatim>\<open>
  async def publish(self, topic, message, source="system"):
      msg_data = {"timestamp": datetime.now().isoformat(), "topic": topic,
                  "source": source, "message": message}
      self.message_history.append(msg_data)
      if topic in self.subscribers:
          for callback in self.subscribers[topic]:
              await callback(msg_data)
      return msg_data
  \<close>
  \<open>now\<close> is the value of \<^verbatim>\<open>datetime.now().isoformat()\<close>. The result is the exception
  that left \<open>publish\<close> or the envelope it returned, the callbacks it invoked, and the state.
\<close>

definition publish ::
  "(callback_id \<Rightarrow> ('m, 'z) callback) \<Rightarrow> string \<Rightarrow> string \<Rightarrow> 'm \<Rightarrow> string \<Rightarrow> ('m, 'z) state \<Rightarrow>
   ((exn + 'm envelope) \<times> callback_id list \<times> ('m, 'z) state) option"
where
  "publish cbs now tp msg src w =
     (let msg_data = \<lparr>timestamp = now, topic = tp, source = src, message = msg\<rparr>;
          w1 = w\<lparr>message_history := message_history w @ [msg_data]\<rparr>
      in if tp \<in> dom (subscribers w1) then
           Option.bind (deliver cbs tp msg_data 0 w1)
             (\<lambda>(r, called, w').
                Some (case r of Some e \<Rightarrow> Inl e | None \<Rightarrow> Inr msg_data, called, w'))
         else Some (Inr msg_data, [], w1))"

text \<open>
  Python's \<^verbatim>\<open>xs[start:]\<close>: a negative start counts from the end, and the start is
  clamped to the list.
\<close>

definition slice_from :: "int \<Rightarrow> 'a list \<Rightarrow> 'a list" where
  "slice_from start xs =
     (let n = int (length xs);
          s = (if start < 0 then max (start + n) 0 else min start n)
      in drop (nat s) xs)"

text \<open>
  \<^verbatim>\<open>
  def get_history(self, topic=None, limit=10):
      history = self.message_history
      if topic:
          history = [m for m in history if m["topic"] == topic]
      return history[-limit:]
  \<close>
  \<^verbatim>\<open>if topic:\<close> tests the truth value: \<open>None\<close> and the empty string are false.
\<close>

definition get_history :: "string option \<Rightarrow> int \<Rightarrow> ('m, 'z) state \<Rightarrow> 'm envelope list" where
  "get_history tp limit w =
     (let history = message_history w;
          history = (case tp of
                       None \<Rightarrow> history
                     | Some t \<Rightarrow> if t \<noteq> [] then filter (\<lambda>m. topic m = t) history else history)
      in slice_from (- limit) history)"

text \<open>
  The public operations of class \<open>EventBus\<close>: \<open>subscribe\<close>, \<open>publish\<close> and \<open>get_history\<close>;
  the class has no other method. \<open>bus_step\<close> is the state an operation leaves
  (\<open>get_history\<close> reads only).
\<close>

datatype 'm bus_op =
    Subscribe string callback_id
  | Publish string string 'm string
  | Get_history "string option" int

fun bus_step ::
  "(callback_id \<Rightarrow> ('m, 'z) callback) \<Rightarrow> 'm bus_op \<Rightarrow> ('m, 'z) state \<Rightarrow> ('m, 'z) state option"
where
  "bus_step cbs (Subscribe tp cb) w = Some (snd (subscribe tp cb w))"
| "bus_step cbs (Publish now tp msg src) w = map_option (\<lambda>(r, called, w'). w') (publish cbs now tp msg src w)"
| "bus_step cbs (Get_history tp limit) w = Some w"

text \<open>
  Vocabulary for the statements. \<open>after_callbacks cbs msg_data cs w\<close> is the state once the
  callbacks \<open>cs\<close> have run one after the other from \<open>w\<close>, each on the state the one before
  it left. \<open>bus_grows w w'\<close>: from \<open>w\<close> to \<open>w'\<close> the history and every subscriber list were
  only appended to. \<open>callbacks_append_only\<close>: the callbacks themselves change the bus in
  that way only, as any code does that reaches the bus through its operations.
\<close>

definition after_callbacks ::
  "(callback_id \<Rightarrow> ('m, 'z) callback) \<Rightarrow> 'm envelope \<Rightarrow> callback_id list \<Rightarrow> ('m, 'z) state \<Rightarrow> ('m, 'z) state"
where
  "after_callbacks cbs msg_data cs w = foldl (\<lambda>w c. snd (cbs c msg_data w)) w cs"

definition bus_grows :: "('m, 'z) state \<Rightarrow> ('m, 'z) state \<Rightarrow> bool" where
  "bus_grows w w' \<longleftrightarrow>
     prefix (message_history w) (message_history w') \<and>
     (\<forall>t l. subscribers w t = Some l \<longrightarrow> (\<exists>l'. subscribers w' t = Some l' \<and> prefix l l'))"

definition callbacks_append_only :: "(callback_id \<Rightarrow> ('m, 'z) callback) \<Rightarrow> bool" where
  "callbacks_append_only cbs \<longleftrightarrow> (\<forall>c m w. bus_grows w (snd (cbs c m w)))"

section \<open>The agent contract (Base/base_agent.py)\<close>

text \<open>
  An agent holds a reference \<open>event_bus\<close> to the shared bus, and its methods and hooks
  reach both the bus and the agent's own fields. The state they run on is the record of
  the bus extended with the fields \<^verbatim>\<open>BaseAgent.__init__\<close> sets; what a subclass adds, and
  the rest of the program, is in the extension slot. \<open>start_time\<close> is \<^verbatim>\<open>datetime.now()\<close>
  at the start, or \<open>None\<close>.
\<close>

record 'm BaseAgent = "'m EventBus" +
  agent_id :: string
  is_running :: bool
  subscriptions :: "string list"
  start_time :: "string option"

type_synonym ('m, 'z) agent_state = "('m, 'z) BaseAgent_scheme"

type_synonym ('m, 'z) hook = "('m, 'z) agent_state \<Rightarrow> exn option \<times> ('m, 'z) agent_state"

text \<open>
  The methods a subclass provides: the four abstract ones and \<open>on_error\<close>, which
  \<open>BaseAgent\<close> defines and a subclass may override. Each returns normally or raises.
\<close>

record ('m, 'z) hooks =
  setup_subscriptions :: "('m, 'z) hook"
  process_message :: "'m envelope \<Rightarrow> ('m, 'z) hook"
  on_start :: "('m, 'z) hook"
  on_stop :: "('m, 'z) hook"
  on_error :: "exn \<Rightarrow> 'm envelope option \<Rightarrow> ('m, 'z) hook"

text \<open>The hook invocations a method makes, in order, with their arguments.\<close>

datatype 'm call =
    Setup_subscriptions
  | On_start
  | On_stop
  | Process_message "'m envelope"
  | On_error exn "'m envelope option"

text \<open>
  \<^verbatim>\<open>BaseAgent.__init__(agent_id, event_bus)\<close>: not running, no subscriptions, no start time.
\<close>

definition BaseAgent_init :: "string \<Rightarrow> 'm EventBus \<Rightarrow> 'm BaseAgent" where
  "BaseAgent_init aid bus =
     \<lparr>subscribers = subscribers bus, message_history = message_history bus,
      agent_id = aid, is_running = False, subscriptions = [], start_time = None\<rparr>"

text \<open>
  \<^verbatim>\<open>
  async def on_error(self, error, msg_data=None):
      print(f"... {error}")
      if msg_data:
          print(f"   Message: {msg_data}")
  \<close>
  The default \<open>on_error\<close> prints and returns.
\<close>

definition BaseAgent_on_error :: "exn \<Rightarrow> 'm envelope option \<Rightarrow> ('m, 'z) hook" where
  "BaseAgent_on_error error msg_data w = (None, w)"

text \<open>
  \<^verbatim>\<open>
  async def start(self):
      if self.is_running:
          print(...); return
      self.is_running = True
      self.start_time = datetime.now()
      await self.setup_subscriptions()
      await self.on_start()
  \<close>
  \<open>now\<close> is the value of \<^verbatim>\<open>datetime.now()\<close>.
\<close>

definition start ::
  "('m, 'z) hooks \<Rightarrow> string \<Rightarrow> ('m, 'z) agent_state \<Rightarrow> exn option \<times> 'm call list \<times> ('m, 'z) agent_state"
where
  "start h now w =
     (if is_running w then (None, [], w)
      else
        let w1 = w\<lparr>is_running := True, start_time := Some now\<rparr> in
        case setup_subscriptions h w1 of
          (Some e, w2) \<Rightarrow> (Some e, [Setup_subscriptions], w2)
        | (None, w2) \<Rightarrow>
            (case on_start h w2 of
               (r, w3) \<Rightarrow> (r, [Setup_subscriptions, On_start], w3)))"


text \<open>
  \<^verbatim>\<open>
  async def handle_message(self, msg_data):
      try:
          if msg_data.get("source") == self.agent_id:
              return
          await self.process_message(msg_data)
      except Exception as e:
          print(...)
          await self.on_error(e, msg_data)
  \<close>
  An exception outside \<open>Exception\<close> is not caught; one that \<open>on_error\<close> raises leaves the
  method, since the call is in the handler.
\<close>

definition handle_message ::
  "('m, 'z) hooks \<Rightarrow> 'm envelope \<Rightarrow> ('m, 'z) agent_state \<Rightarrow>
   exn option \<times> 'm call list \<times> ('m, 'z) agent_state"
where
  "handle_message h msg_data w =
     (if source msg_data = agent_id w then (None, [], w)
      else
        case process_message h msg_data w of
          (None, w1) \<Rightarrow> (None, [Process_message msg_data], w1)
        | (Some e, w1) \<Rightarrow>
            if is_Exception e then
              (case on_error h e (Some msg_data) w1 of
                 (r, w2) \<Rightarrow> (r, [Process_message msg_data, On_error e (Some msg_data)], w2))
            else (Some e, [Process_message msg_data], w1))"


text \<open>
  \<^verbatim>\<open>
  def subscribe_to_topic(self, topic):
      self.event_bus.subscribe(topic, self.handle_message)
      self.subscriptions.append(topic)
  \<close>
  \<open>self_cb\<close> is the identifier of \<open>self.handle_message\<close>.
\<close>

definition subscribe_to_topic ::
  "callback_id \<Rightarrow> string \<Rightarrow> ('m, 'z) agent_state \<Rightarrow> ('m, 'z) agent_state"
where
  "subscribe_to_topic self_cb tp w =
     (let w1 = snd (subscribe tp self_cb w)
      in w1\<lparr>subscriptions := subscriptions w1 @ [tp]\<rparr>)"

text \<open>
  \<^verbatim>\<open>
  async def publish_message(self, topic, message):
      await self.event_bus.publish(topic, message, source=self.agent_id)
  \<close>
\<close>

definition publish_message ::
  "(callback_id \<Rightarrow> 'm envelope \<Rightarrow> ('m, 'z) agent_state \<Rightarrow> exn option \<times> ('m, 'z) agent_state) \<Rightarrow>
   string \<Rightarrow> string \<Rightarrow> 'm \<Rightarrow> ('m, 'z) agent_state \<Rightarrow>
   (exn option \<times> callback_id list \<times> ('m, 'z) agent_state) option"
where
  "publish_message cbs now tp msg w =
     map_option (\<lambda>(r, called, w'). (case r of Inl e \<Rightarrow> Some e | Inr m \<Rightarrow> None, called, w'))
       (publish cbs now tp msg (agent_id w) w)"

section \<open>The agent factory (Base/agent_factory.py)\<close>

text \<open>
  A configuration is a Python dictionary from strings to arbitrary values
  (\<open>Dict[str, Any]\<close>), in the order of its items. \<open>truthy\<close> is Python's truth value,
  \<open>hashable\<close> tells whether a value can be looked up in a dictionary (a list or a
  dictionary cannot: the lookup raises \<open>TypeError\<close>), and \<open>dict_get c k\<close> is
  \<^verbatim>\<open>c.get(k)\<close>.
\<close>

type_synonym config = "(string \<times> pyval) list"

fun truthy :: "pyval \<Rightarrow> bool" where
  "truthy PNone = False"
| "truthy (PBool b) = b"
| "truthy (PInt i) = (i \<noteq> 0)"
| "truthy (PStr s) = (s \<noteq> [])"
| "truthy (PList l) = (l \<noteq> [])"
| "truthy (PDict d) = (d \<noteq> [])"

fun hashable :: "pyval \<Rightarrow> bool" where
  "hashable (PList l) = False"
| "hashable (PDict d) = False"
| "hashable v = True"

definition dict_get :: "config \<Rightarrow> string \<Rightarrow> pyval" where
  "dict_get c k = (case map_of c k of None \<Rightarrow> PNone | Some v \<Rightarrow> v)"

text \<open>
  A registered agent class is called as \<^verbatim>\<open>agent_class(agent_id, self.event_bus, config)\<close>
  or \<^verbatim>\<open>agent_class(agent_id, self.event_bus)\<close>. The constructor runs on the program state
  \<open>'s\<close>, which holds the bus (the constructor of \<open>QAAgent\<close> subscribes to three topics), and
  returns the agent or raises. \<open>registered_agents\<close> is the dictionary of the registered
  classes in insertion order.
\<close>

type_synonym ('a, 's) agent_class = "pyval \<Rightarrow> config option \<Rightarrow> 's \<Rightarrow> (exn + 'a) \<times> 's"

record ('a, 's) AgentFactory =
  registered_agents :: "(string \<times> ('a, 's) agent_class) list"

text \<open>
  \<^verbatim>\<open>
  def create_agent(self, agent_type, config):
      if agent_type not in self.registered_agents:
          raise ValueError(f"Unknown agent type: {agent_type}. "
                           f"Available types: {list(self.registered_agents.keys())}")
      agent_class = self.registered_agents[agent_type]
      agent_id = config.get("agent_id", f"{agent_type}_agent")
      if agent_type in ["qa", "docs"]:
          return agent_class(agent_id, self.event_bus, config)
      else:
          return agent_class(agent_id, self.event_bus)
  \<close>
  The keys of the registry are strings, so a hashable value that is not a string is not
  among them.
\<close>

definition create_agent ::
  "('a, 's) AgentFactory \<Rightarrow> pyval \<Rightarrow> config \<Rightarrow> 's \<Rightarrow> (exn + 'a) \<times> 's"
where
  "create_agent f agent_type config s =
     (if \<not> hashable agent_type then (Inl (TypeError (Text ''unhashable type'')), s)
      else
        case agent_type of
          PStr t \<Rightarrow>
            (case map_of (registered_agents f) t of
               None \<Rightarrow>
                 (Inl (ValueError (Unknown_agent_type agent_type (map fst (registered_agents f)))), s)
             | Some agent_class \<Rightarrow>
                 let agent_id = (case map_of config ''agent_id'' of
                                   None \<Rightarrow> PStr (t @ ''_agent'')
                                 | Some v \<Rightarrow> v)
                 in if t = ''qa'' \<or> t = ''docs'' then agent_class agent_id (Some config) s
                    else agent_class agent_id None s)
        | _ \<Rightarrow>
            (Inl (ValueError (Unknown_agent_type agent_type (map fst (registered_agents f)))), s))"

text \<open>
  \<^verbatim>\<open>
  def create_agent_team(self, team_config):
      agents = {}
      for agent_name, config in team_config.items():
          agent_type = config.get("type")
          if not agent_type:
              raise ValueError(f"Agent '{agent_name}' missing 'type' field")
          agents[agent_name] = self.create_agent(agent_type, config)
      return agents
  \<close>
  \<open>team_config\<close> is the dictionary's items in their order. \<open>create_agent_team_loop\<close> is the
  loop, with the dictionary \<open>agents\<close> built so far.
\<close>

fun create_agent_team_loop ::
  "('a, 's) AgentFactory \<Rightarrow> (string \<times> config) list \<Rightarrow> (string \<rightharpoonup> 'a) \<Rightarrow> 's \<Rightarrow>
   (exn + (string \<rightharpoonup> 'a)) \<times> 's"
where
  "create_agent_team_loop f [] agents s = (Inr agents, s)"
| "create_agent_team_loop f ((agent_name, config) # rest) agents s =
     (let agent_type = dict_get config ''type'' in
      if \<not> truthy agent_type then (Inl (ValueError (Missing_type_field agent_name)), s)
      else
        case create_agent f agent_type config s of
          (Inl e, s') \<Rightarrow> (Inl e, s')
        | (Inr agent, s') \<Rightarrow> create_agent_team_loop f rest (agents(agent_name \<mapsto> agent)) s')"

definition create_agent_team ::
  "('a, 's) AgentFactory \<Rightarrow> (string \<times> config) list \<Rightarrow> 's \<Rightarrow> (exn + (string \<rightharpoonup> 'a)) \<times> 's"
where
  "create_agent_team f team_config s = create_agent_team_loop f team_config Map.empty s"

section \<open>Example states, callbacks and agents\<close>

text \<open>
  Concrete inputs on which the statements below are evaluated. The bus has three
  subscribers on the topic \<open>orders\<close>; \<open>raising_callbacks\<close> makes the second one raise;
  \<open>subscribing_callbacks\<close> makes the first one subscribe a fourth callback to the same
  topic; \<open>noting_callbacks\<close> makes every callback subscribe itself to the topic \<open>seen\<close>,
  which leaves the order of the invocations in the state.
\<close>

definition example_bus :: "nat EventBus" where
  "example_bus = \<lparr>subscribers = [''orders'' \<mapsto> [1, 2, 3]], message_history = []\<rparr>"

definition example_envelope :: "nat envelope" where
  "example_envelope = \<lparr>timestamp = ''t0'', topic = ''orders'', source = ''src'', message = 7\<rparr>"

definition raising_callbacks :: "callback_id \<Rightarrow> (nat, unit) callback" where
  "raising_callbacks c msg_data w = (if c = 2 then (Some (Exception ''boom''), w) else (None, w))"


definition noting_callbacks :: "callback_id \<Rightarrow> (nat, unit) callback" where
  "noting_callbacks c msg_data w = (None, snd (subscribe ''seen'' c w))"

definition two_topic_bus :: "nat EventBus" where
  "two_topic_bus =
     \<lparr>subscribers = Map.empty,
      message_history =
        [\<lparr>timestamp = ''t1'', topic = ''x'', source = ''a'', message = 1\<rparr>,
         \<lparr>timestamp = ''t2'', topic = ''y'', source = ''b'', message = 2\<rparr>]\<rparr>"

text \<open>
  An agent \<open>agent_a\<close> on a fresh bus, and hooks for it. Every hook of \<open>example_hooks\<close>
  leaves a trace of its own in the state: \<open>setup_subscriptions\<close> subscribes to \<open>orders\<close>,
  \<open>on_start\<close> to \<open>control\<close>, \<open>process_message\<close> to \<open>replies\<close>, and \<open>on_stop\<close> clears the
  start time; \<open>on_error\<close> is the default. The others differ from it in one hook that
  raises.
\<close>

definition example_agent :: "nat BaseAgent" where
  "example_agent = BaseAgent_init ''agent_a'' EventBus_init"

definition example_hooks :: "(nat, unit) hooks" where
  "example_hooks =
     \<lparr>setup_subscriptions = (\<lambda>w. (None, subscribe_to_topic 1 ''orders'' w)),
      process_message = (\<lambda>msg_data w. (None, subscribe_to_topic 1 ''replies'' w)),
      on_start = (\<lambda>w. (None, subscribe_to_topic 1 ''control'' w)),
      on_stop = (\<lambda>w. (None, w\<lparr>start_time := None\<rparr>)),
      on_error = BaseAgent_on_error\<rparr>"







text \<open>
  A factory with the four core types registered. The class records the arguments of the
  constructor call; the state counts the agents constructed.
\<close>

definition example_class :: "(pyval \<times> config option, nat) agent_class" where
  "example_class aid config s = (Inr (aid, config), Suc s)"

definition example_factory :: "(pyval \<times> config option, nat) AgentFactory" where
  "example_factory =
     \<lparr>registered_agents =
        [(''architect'', example_class), (''codegen'', example_class),
         (''qa'', example_class), (''docs'', example_class)]\<rparr>"

section \<open>The bus: history queries\<close>

lemma slice_from_neg_positive:
  "0 < n \<Longrightarrow> slice_from (- n) xs = drop (length xs - nat n) xs"
  by (auto simp: slice_from_def Let_def max_def nat_diff_distrib' intro: arg_cong [where f = "\<lambda>k. drop k xs"])

lemma slice_from_suffix: "suffix (slice_from s xs) xs"
  by (simp add: slice_from_def Let_def suffix_drop)

lemma slice_from_subseq: "subseq (slice_from s xs) xs"
  by (rule suffix_imp_subseq) (rule slice_from_suffix)

lemma set_slice_from: "set (slice_from s xs) \<subseteq> set xs"
  by (simp add: slice_from_def Let_def set_drop_subset)

text \<open>
  For a positive limit the bound of C5 holds, and for every limit and topic the result
  is a subsequence of the history: the returned envelopes are in publish order.
\<close>

lemma get_history_positive_limit:
  "0 < n \<Longrightarrow> int (length (get_history tp n w)) \<le> n"
  by (auto simp: get_history_def Let_def slice_from_neg_positive split: option.splits)

lemma get_history_sublist:
  "subseq (get_history tp n w) (message_history w)"
proof (cases "\<exists>t. tp = Some t \<and> t \<noteq> []")
  case True
  then obtain t where t: "tp = Some t" "t \<noteq> []" by blast
  have "subseq (slice_from (- n) (filter (\<lambda>m. topic m = t) (message_history w)))
          (filter (\<lambda>m. topic m = t) (message_history w))"
    by (rule slice_from_subseq)
  also have "subseq (filter (\<lambda>m. topic m = t) (message_history w)) (message_history w)"
    by simp
  finally show ?thesis
    using t by (simp add: get_history_def)
next
  case False
  then have "get_history tp n w = slice_from (- n) (message_history w)"
    by (cases tp) (auto simp: get_history_def)
  then show ?thesis
    by (simp add: slice_from_subseq)
qed

text \<open>
  C5. \<open>get_history(limit=N)\<close> is claimed to return at most \<open>N\<close> envelopes for every \<open>N\<close>.
  With \<open>N = 0\<close> the slice is \<^verbatim>\<open>history[-0:]\<close>, which is \<^verbatim>\<open>history[0:]\<close>: the whole
  history comes back. Here the history holds two envelopes and both are returned.
\<close>

theorem get_history_limit_zero_returns_all:
  "get_history None 0 two_topic_bus =
     [\<lparr>timestamp = ''t1'', topic = ''x'', source = ''a'', message = 1\<rparr>,
      \<lparr>timestamp = ''t2'', topic = ''y'', source = ''b'', message = 2\<rparr>]"
  by (simp add: get_history_def slice_from_def two_topic_bus_def)

text \<open>
  For every topic other than the empty string the filter is applied: every envelope
  that \<open>get_history(topic=t)\<close> returns has the topic \<open>t\<close>.
\<close>

lemma get_history_nonempty_topic_filter:
  assumes "t \<noteq> []"
  shows "\<forall>m \<in> set (get_history (Some t) limit w). topic m = t"
proof
  fix m assume "m \<in> set (get_history (Some t) limit w)"
  then have "m \<in> set (filter (\<lambda>m. topic m = t) (message_history w))"
    using assms set_slice_from [of "- limit" "filter (\<lambda>m. topic m = t) (message_history w)"]
    by (auto simp: get_history_def)
  then show "topic m = t" by simp
qed

text \<open>
  C6. \<open>get_history(topic=T)\<close> is claimed to return only envelopes whose topic is \<open>T\<close>, for
  every topic string \<open>T\<close>. The empty string is a topic like any other for \<open>subscribe\<close> and
  \<open>publish\<close>, but \<^verbatim>\<open>if topic:\<close> is false for it, so the filter is skipped:
  \<open>get_history(topic="")\<close> on a history that holds one envelope of topic \<open>x\<close> and one of
  topic \<open>y\<close> returns both.
\<close>

theorem get_history_empty_topic_not_filtered:
  "get_history (Some '''') 10 two_topic_bus =
     [\<lparr>timestamp = ''t1'', topic = ''x'', source = ''a'', message = 1\<rparr>,
      \<lparr>timestamp = ''t2'', topic = ''y'', source = ''b'', message = 2\<rparr>]"
  by (simp add: get_history_def slice_from_def two_topic_bus_def)

section \<open>The bus: delivery\<close>

lemma after_callbacks_Nil [simp]: "after_callbacks cbs m [] w = w"
  by (simp add: after_callbacks_def)

lemma after_callbacks_Cons [simp]:
  "after_callbacks cbs m (c # cs) w = after_callbacks cbs m cs (snd (cbs c m w))"
  by (simp add: after_callbacks_def)

lemma after_callbacks_snoc:
  "after_callbacks cbs m (cs @ [c]) w = snd (cbs c m (after_callbacks cbs m cs w))"
  by (simp add: after_callbacks_def)

text \<open>One step of the loop: past the end of the list, at a callback that raises, at one that returns.\<close>

lemma deliver_end:
  "subscribers w tp = Some l \<Longrightarrow> length l \<le> i \<Longrightarrow> deliver cbs tp m i w = Some (None, [], w)"
  by (subst deliver.simps) simp

lemma deliver_raise:
  "subscribers w tp = Some l \<Longrightarrow> i < length l \<Longrightarrow> cbs (l ! i) m w = (Some e, w') \<Longrightarrow>
   deliver cbs tp m i w = Some (Some e, [l ! i], w')"
  by (subst deliver.simps) simp

lemma deliver_next:
  "subscribers w tp = Some l \<Longrightarrow> i < length l \<Longrightarrow> cbs (l ! i) m w = (None, w') \<Longrightarrow>
   deliver cbs tp m i w =
     Option.bind (deliver cbs tp m (Suc i) w') (\<lambda>(r, called, w''). Some (r, (l ! i) # called, w''))"
  by (subst deliver.simps) simp


text \<open>
  The loop from position \<open>length pre\<close> on, when the first \<open>k\<close> of the callbacks \<open>cs\<close> return,
  the topic's list is only appended to meanwhile, and the next callback raises.
\<close>

lemma deliver_until_raise:
  "subscribers w tp = Some (pre @ cs @ extra) \<Longrightarrow> k < length cs \<Longrightarrow>
   (\<And>j. j < k \<Longrightarrow> fst (cbs (cs ! j) m (after_callbacks cbs m (take j cs) w)) = None) \<Longrightarrow>
   (\<And>j. j < k \<Longrightarrow> \<exists>extra'. subscribers (after_callbacks cbs m (take (Suc j) cs) w) tp = Some (pre @ cs @ extra')) \<Longrightarrow>
   cbs (cs ! k) m (after_callbacks cbs m (take k cs) w) = (Some e, w') \<Longrightarrow>
   deliver cbs tp m (length pre) w = Some (Some e, take (Suc k) cs, w')"
proof (induction k arbitrary: pre cs extra w)
  case 0
  then obtain c cs' where cs: "cs = c # cs'" by (cases cs) auto
  show ?case
    using "0.prems" cs by (simp add: deliver_raise [where l = "pre @ cs @ extra"])
next
  case (Suc k)
  then obtain c cs' where cs: "cs = c # cs'" by (cases cs) auto
  obtain w1 where w1: "cbs c m w = (None, w1)"
    using Suc.prems(3) [of 0] cs by (cases "cbs c m w") auto
  obtain extra' where sub': "subscribers w1 tp = Some ((pre @ [c]) @ cs' @ extra')"
    using Suc.prems(4) [of 0] w1 cs by auto
  have k: "k < length cs'" using Suc.prems(2) cs by simp
  have "deliver cbs tp m (length (pre @ [c])) w1 = Some (Some e, take (Suc k) cs', w')"
  proof (rule Suc.IH [OF sub' k])
    fix j assume j: "j < k"
    show "fst (cbs (cs' ! j) m (after_callbacks cbs m (take j cs') w1)) = None"
      using Suc.prems(3) [of "Suc j"] j w1 cs by simp
    show "\<exists>extra'. subscribers (after_callbacks cbs m (take (Suc j) cs') w1) tp = Some ((pre @ [c]) @ cs' @ extra')"
      using Suc.prems(4) [of "Suc j"] j w1 cs by simp
  next
    show "cbs (cs' ! k) m (after_callbacks cbs m (take k cs') w1) = (Some e, w')"
      using Suc.prems(5) w1 cs by simp
  qed
  moreover have "deliver cbs tp m (length pre) w =
     Option.bind (deliver cbs tp m (Suc (length pre)) w1)
       (\<lambda>(r, called, w''). Some (r, ((pre @ cs @ extra) ! length pre) # called, w''))"
    using Suc.prems(1) w1 cs by (intro deliver_next) auto
  ultimately show ?case
    using cs by simp
qed




text \<open>
  C2. For every topic with no registered subscribers (no entry in the registry, or an
  entry with no callback), \<open>publish\<close> appends exactly one envelope to the history, with
  that topic, source and payload, invokes no callback, and returns the envelope.
\<close>

theorem publish_no_subscribers:
  assumes "subscribers w tp = None \<or> subscribers w tp = Some []"
  shows "publish cbs now tp msg src w =
     Some (Inr \<lparr>timestamp = now, topic = tp, source = src, message = msg\<rparr>, [],
           w\<lparr>message_history :=
               message_history w @ [\<lparr>timestamp = now, topic = tp, source = src, message = msg\<rparr>]\<rparr>)"
  using assms
proof
  assume "subscribers w tp = None"
  then show ?thesis
    by (simp add: publish_def Let_def dom_def)
next
  assume "subscribers w tp = Some []"
  then show ?thesis
    by (simp add: publish_def Let_def dom_def deliver_end)
qed

theorem publish_no_subscribers_witness:
  "publish raising_callbacks ''t1'' ''news'' 8 ''src'' example_bus =
     Some (Inr \<lparr>timestamp = ''t1'', topic = ''news'', source = ''src'', message = 8\<rparr>, [],
       example_bus\<lparr>message_history :=
         [\<lparr>timestamp = ''t1'', topic = ''news'', source = ''src'', message = 8\<rparr>]\<rparr>)"
  using publish_no_subscribers [of example_bus "''news''" raising_callbacks "''t1''" 8 "''src''"]
  by (simp add: example_bus_def)

section \<open>The bus: the registry and the history only grow\<close>

lemma bus_grows_refl [simp]: "bus_grows w w"
  by (simp add: bus_grows_def)

lemma bus_grows_trans: "bus_grows w w' \<Longrightarrow> bus_grows w' w'' \<Longrightarrow> bus_grows w w''"
  unfolding bus_grows_def by (meson prefix_order.order_trans)

lemma subscribe_grows: "bus_grows w (snd (subscribe tp cb w))"
  by (auto simp: bus_grows_def subscribe_def Let_def)

lemma after_callbacks_grows:
  "callbacks_append_only cbs \<Longrightarrow> bus_grows w (after_callbacks cbs m cs w)"
proof (induction cs rule: rev_induct)
  case Nil
  show ?case by simp
next
  case (snoc c cs)
  have "bus_grows (after_callbacks cbs m cs w) (snd (cbs c m (after_callbacks cbs m cs w)))"
    using snoc.prems by (simp add: callbacks_append_only_def)
  with snoc show ?case
    by (auto simp: after_callbacks_snoc intro: bus_grows_trans)
qed

text \<open>
  Whenever the loop returns, the bus has only grown, by fixpoint induction on the loop.
\<close>

lemma deliver_grows:
  assumes d: "deliver cbs tp m i w = Some res"
  shows "callbacks_append_only cbs \<longrightarrow> bus_grows w (snd (snd res))"
proof (rule deliver.raw_induct
    [where P = "\<lambda>cbs tp m i w res. callbacks_append_only cbs \<longrightarrow> bus_grows w (snd (snd res))", OF _ d])
  fix deliver' :: "(callback_id \<Rightarrow> ('a, 'b) callback) \<Rightarrow> string \<Rightarrow> 'a envelope \<Rightarrow> nat \<Rightarrow> ('a, 'b) state \<Rightarrow>
     (exn option \<times> callback_id list \<times> ('a, 'b) state) option"
  fix cbs :: "callback_id \<Rightarrow> ('a, 'b) callback" and tp m i and w :: "('a, 'b) state" and res
  assume IH: "\<And>cbs tp m i w res. deliver' cbs tp m i w = Some res \<Longrightarrow>
                callbacks_append_only cbs \<longrightarrow> bus_grows w (snd (snd res))"
  assume hyp: "(let l = (case subscribers w tp of None \<Rightarrow> [] | Some l \<Rightarrow> l) in
      if i < length l then
        (case cbs (l ! i) m w of
           (Some e, w') \<Rightarrow> Some (Some e, [l ! i], w')
         | (None, w') \<Rightarrow>
             Option.bind (deliver' cbs tp m (Suc i) w')
               (\<lambda>(r, called, w''). Some (r, (l ! i) # called, w'')))
      else Some (None, [], w)) = Some res"
  show "callbacks_append_only cbs \<longrightarrow> bus_grows w (snd (snd res))"
  proof
    assume rely: "callbacks_append_only cbs"
    let ?l = "case subscribers w tp of None \<Rightarrow> [] | Some l \<Rightarrow> l"
    show "bus_grows w (snd (snd res))"
    proof (cases "i < length ?l")
      case False
      then show ?thesis using hyp by (auto simp: Let_def)
    next
      case True
      obtain r w' where c: "cbs (?l ! i) m w = (r, w')" by (cases "cbs (?l ! i) m w")
      have g: "bus_grows w w'"
        using rely c unfolding callbacks_append_only_def by (metis snd_conv)
      show ?thesis
      proof (cases r)
        case (Some e)
        then show ?thesis using hyp True c g by (auto simp: Let_def)
      next
        case None
        then obtain res' where d': "deliver' cbs tp m (Suc i) w' = Some res'"
          and res: "snd (snd res) = snd (snd res')"
          using hyp True c by (auto simp: Let_def Option.bind_eq_Some_conv split: prod.splits)
        have "bus_grows w' (snd (snd res'))"
          using IH [OF d'] rely by simp
        then show ?thesis using g res by (auto intro: bus_grows_trans)
      qed
    qed
  qed
qed

lemma publish_grows:
  assumes rely: "callbacks_append_only cbs"
    and p: "publish cbs now tp msg src w = Some (r, called, w')"
  shows "bus_grows w w'"
proof -
  let ?m = "\<lparr>timestamp = now, topic = tp, source = src, message = msg\<rparr>"
  let ?w1 = "w\<lparr>message_history := message_history w @ [?m]\<rparr>"
  have g1: "bus_grows w ?w1" by (simp add: bus_grows_def)
  show "bus_grows w w'"
  proof (cases "tp \<in> dom (subscribers w)")
    case False
    then show ?thesis using p g1 by (simp add: publish_def Let_def)
  next
    case True
    then obtain res where d: "deliver cbs tp ?m 0 ?w1 = Some res" and w': "w' = snd (snd res)"
      using p by (auto simp: publish_def Let_def Option.bind_eq_Some_conv split: prod.splits)
    have "bus_grows ?w1 (snd (snd res))"
      using deliver_grows [OF d] rely by simp
    then show ?thesis using g1 w' by (auto intro: bus_grows_trans)
  qed
qed

lemma raising_callbacks_append_only: "callbacks_append_only raising_callbacks"
  by (simp add: callbacks_append_only_def raising_callbacks_def)

lemma noting_callbacks_append_only: "callbacks_append_only noting_callbacks"
  by (simp add: callbacks_append_only_def noting_callbacks_def subscribe_grows)

text \<open>
  C9. The operations of the bus are \<open>subscribe\<close>, \<open>publish\<close> and \<open>get_history\<close>, and there is
  no other (none that unsubscribes). Whatever state one of them ends in, the history
  and every subscriber list of the state it started from are still there, as prefixes:
  entries were appended or read, none removed or reordered. The registry and the history
  are owned by the bus and changed through \<open>subscribe\<close> and \<open>publish\<close> only (section 3 and
  section 5 of the specification), so the callbacks that \<open>publish\<close> runs, which may call
  these operations in turn, only append as well: \<open>callbacks_append_only\<close>.
\<close>

theorem bus_operations_only_append:
  assumes "callbacks_append_only cbs" and "bus_step cbs op w = Some w'"
  shows "bus_grows w w'"
proof (cases op)
  case (Subscribe tp cb)
  then show ?thesis using assms(2) by (auto simp: subscribe_grows)
next
  case (Publish now tp msg src)
  then obtain r called where "publish cbs now tp msg src w = Some (r, called, w')"
    using assms(2) by auto
  with assms(1) show ?thesis by (rule publish_grows)
next
  case (Get_history tp limit)
  then show ?thesis using assms(2) by simp
qed

theorem bus_operations_only_append_witness:
  "bus_grows example_bus
     \<lparr>subscribers = [''orders'' \<mapsto> [1, 2, 3], ''seen'' \<mapsto> [1, 2, 3]],
      message_history = [example_envelope]\<rparr>"
proof -
  have "bus_step noting_callbacks (Publish ''t0'' ''orders'' 7 ''src'') example_bus =
      Some \<lparr>subscribers = [''orders'' \<mapsto> [1, 2, 3], ''seen'' \<mapsto> [1, 2, 3]],
            message_history = [example_envelope]\<rparr>"
    by (simp add: publish_def deliver.simps example_bus_def example_envelope_def noting_callbacks_def
        subscribe_def Let_def fun_upd_twist)
  with noting_callbacks_append_only show ?thesis
    by (rule bus_operations_only_append)
qed

text \<open>
  C10. Let \<open>l\<close> be the callbacks subscribed to the topic and \<open>w1\<close> the state with the
  envelope appended to the history, which is the state the first callback runs on. If
  the callbacks before position \<open>k\<close> return and the callback at position \<open>k\<close> raises \<open>e\<close>,
  leaving the state \<open>w'\<close>, then \<open>publish\<close> leaves with \<open>e\<close> (it catches nothing), it has
  invoked the callbacks up to position \<open>k\<close> and none after it, and it ends in \<open>w'\<close>, where
  the history still starts with the old history followed by the envelope. As in C9, the
  callbacks change the bus through its operations only, that is, by appending.
\<close>

theorem publish_stops_at_raising_subscriber:
  assumes "callbacks_append_only cbs"
    and "subscribers w tp = Some l" and "k < length l"
    and "msg_data = \<lparr>timestamp = now, topic = tp, source = src, message = msg\<rparr>"
    and "w1 = w\<lparr>message_history := message_history w @ [msg_data]\<rparr>"
    and "\<And>j. j < k \<Longrightarrow>
           fst (cbs (l ! j) msg_data (after_callbacks cbs msg_data (take j l) w1)) = None"
    and "cbs (l ! k) msg_data (after_callbacks cbs msg_data (take k l) w1) = (Some e, w')"
  shows "publish cbs now tp msg src w = Some (Inl e, take (Suc k) l, w') \<and>
         prefix (message_history w @ [msg_data]) (message_history w')"
proof -
  have sub1: "subscribers w1 tp = Some ([] @ l @ [])"
    using assms(2,5) by simp
  have grows: "bus_grows w1 (after_callbacks cbs msg_data cs w1)" for cs
    using assms(1) by (rule after_callbacks_grows)
  have "deliver cbs tp msg_data (length ([] :: callback_id list)) w1 = Some (Some e, take (Suc k) l, w')"
  proof (rule deliver_until_raise [where pre = "[]" and cs = l and extra = "[]" and cbs = cbs and m = msg_data
        and w = w1 and k = k and tp = tp, OF sub1 assms(3) _ _ assms(7)])
    fix j assume "j < k"
    then show "fst (cbs (l ! j) msg_data (after_callbacks cbs msg_data (take j l) w1)) = None"
      by (rule assms(6))
    obtain l' where "subscribers (after_callbacks cbs msg_data (take (Suc j) l) w1) tp = Some l'"
      and "prefix l l'"
      using grows [of "take (Suc j) l"] sub1 unfolding bus_grows_def by auto
    then show "\<exists>extra'. subscribers (after_callbacks cbs msg_data (take (Suc j) l) w1) tp = Some ([] @ l @ extra')"
      by (auto simp: prefix_def)
  qed
  moreover have "tp \<in> dom (subscribers w1)"
    using assms(2,5) by auto
  ultimately have p: "publish cbs now tp msg src w = Some (Inl e, take (Suc k) l, w')"
    using assms(4,5) by (simp add: publish_def Let_def)
  have "bus_grows (after_callbacks cbs msg_data (take k l) w1) w'"
    using assms(1,7) unfolding callbacks_append_only_def by (metis snd_conv)
  with grows [of "take k l"] have "bus_grows w1 w'"
    by (rule bus_grows_trans)
  then have "prefix (message_history w @ [msg_data]) (message_history w')"
    using assms(5) by (simp add: bus_grows_def)
  with p show ?thesis by simp
qed

theorem publish_stops_at_raising_subscriber_witness:
  "publish raising_callbacks ''t0'' ''orders'' 7 ''src'' example_bus =
     Some (Inl (Exception ''boom''), take 2 [1, 2, 3], example_bus\<lparr>message_history := [example_envelope]\<rparr>) \<and>
   prefix (message_history example_bus @ [example_envelope])
     (message_history (example_bus\<lparr>message_history := [example_envelope]\<rparr>))"
proof -
  let ?w1 = "example_bus\<lparr>message_history := message_history example_bus @ [example_envelope]\<rparr>"
  have "publish raising_callbacks ''t0'' ''orders'' 7 ''src'' example_bus =
      Some (Inl (Exception ''boom''), take (Suc 1) [1, 2, 3], ?w1) \<and>
     prefix (message_history example_bus @ [example_envelope]) (message_history ?w1)"
  proof (rule publish_stops_at_raising_subscriber [OF raising_callbacks_append_only])
    show "subscribers example_bus ''orders'' = Some [1, 2, 3]"
      by (simp add: example_bus_def)
    show "1 < length [1, 2, 3 :: callback_id]" by simp
    show "example_envelope = \<lparr>timestamp = ''t0'', topic = ''orders'', source = ''src'', message = 7\<rparr>"
      by (simp add: example_envelope_def)
    show "?w1 = ?w1" ..
    show "raising_callbacks ([1, 2, 3] ! 1) example_envelope
            (after_callbacks raising_callbacks example_envelope (take 1 [1, 2, 3]) ?w1) =
          (Some (Exception ''boom''), ?w1)"
      by (simp add: raising_callbacks_def)
  next
    fix j :: nat
    assume "j < 1"
    then show "fst (raising_callbacks ([1, 2, 3] ! j) example_envelope
            (after_callbacks raising_callbacks example_envelope (take j [1, 2, 3]) ?w1)) = None"
      by (simp add: raising_callbacks_def)
  qed
  then show ?thesis
    by (simp add: example_bus_def)
qed

section \<open>The agent contract: dispatch\<close>

text \<open>
  C3. For every agent and every envelope handed to \<open>handle_message\<close>: if the envelope's
  source is the agent's own identifier, \<open>process_message\<close> is not invoked: no hook runs and
  the state is the one \<open>handle_message\<close> started from. Otherwise \<open>process_message\<close> is
  invoked with that envelope on that state, first and once, and what \<open>handle_message\<close>
  returns is what this invocation gives: its state when it returns normally, its
  exception and state when it raises outside \<open>Exception\<close>, and the outcome of \<open>on_error\<close>,
  run on its state with its exception, when it raises inside \<open>Exception\<close>.
\<close>

theorem handle_message_filters_own_messages:
  "(source msg_data = agent_id w \<longrightarrow> handle_message h msg_data w = (None, [], w)) \<and>
   (source msg_data \<noteq> agent_id w \<longrightarrow>
      (\<exists>calls. fst (snd (handle_message h msg_data w)) = Process_message msg_data # calls \<and>
               (\<forall>m. Process_message m \<notin> set calls)) \<and>
      (process_message h msg_data w = (None, w1) \<longrightarrow>
         handle_message h msg_data w = (None, [Process_message msg_data], w1)) \<and>
      (process_message h msg_data w = (Some e, w1) \<and> \<not> is_Exception e \<longrightarrow>
         handle_message h msg_data w = (Some e, [Process_message msg_data], w1)) \<and>
      (process_message h msg_data w = (Some e, w1) \<and> is_Exception e \<longrightarrow>
         handle_message h msg_data w =
           (fst (on_error h e (Some msg_data) w1),
            [Process_message msg_data, On_error e (Some msg_data)],
            snd (on_error h e (Some msg_data) w1))))"
  by (auto simp: handle_message_def split: prod.splits option.splits)

theorem handle_message_filters_own_messages_witness:
  "handle_message example_hooks (example_envelope\<lparr>source := ''agent_a''\<rparr>) example_agent =
     (None, [], example_agent) \<and>
   handle_message example_hooks example_envelope example_agent =
     (None, [Process_message example_envelope], subscribe_to_topic 1 ''replies'' example_agent)"
proof -
  have own: "source (example_envelope\<lparr>source := ''agent_a''\<rparr>) = agent_id example_agent"
    by (simp add: example_agent_def BaseAgent_init_def)
  have other: "source example_envelope \<noteq> agent_id example_agent"
    by (simp add: example_agent_def BaseAgent_init_def example_envelope_def)
  have pm: "process_message example_hooks example_envelope example_agent =
      (None, subscribe_to_topic 1 ''replies'' example_agent)"
    by (simp add: example_hooks_def)
  from own handle_message_filters_own_messages
    [of "example_envelope\<lparr>source := ''agent_a''\<rparr>" example_agent example_hooks]
  have "handle_message example_hooks (example_envelope\<lparr>source := ''agent_a''\<rparr>) example_agent
        = (None, [], example_agent)"
    by blast
  moreover from other pm handle_message_filters_own_messages
    [of example_envelope example_agent example_hooks "subscribe_to_topic 1 ''replies'' example_agent"]
  have "handle_message example_hooks example_envelope example_agent =
      (None, [Process_message example_envelope], subscribe_to_topic 1 ''replies'' example_agent)"
    by blast
  ultimately show ?thesis by simp
qed




section \<open>The agent contract: life cycle\<close>




section \<open>The agent factory: team construction\<close>

lemma create_agent_team_loop_append:
  "create_agent_team_loop f (pre @ rest) agents s =
     (case create_agent_team_loop f pre agents s of
        (Inl e, s') \<Rightarrow> (Inl e, s')
      | (Inr agents', s') \<Rightarrow> create_agent_team_loop f rest agents' s')"
proof (induction pre arbitrary: agents s)
  case Nil
  show ?case by simp
next
  case (Cons entry pre)
  obtain agent_name config where entry: "entry = (agent_name, config)"
    by (cases entry)
  obtain r s' where c: "create_agent f (dict_get config ''type'') config s = (r, s')"
    by (cases "create_agent f (dict_get config ''type'') config s")
  show ?case
  proof (cases r)
    case (Inl e)
    then show ?thesis by (simp add: entry c Let_def)
  next
    case (Inr agent)
    then show ?thesis
      by (simp add: entry c Let_def Cons.IH del: fun_upd_apply)
  qed
qed

lemma create_agent_unregistered:
  "hashable agent_type \<Longrightarrow> agent_type \<notin> PStr ` fst ` set (registered_agents f) \<Longrightarrow>
   create_agent f agent_type config s =
     (Inl (ValueError (Unknown_agent_type agent_type (map fst (registered_agents f)))), s)"
proof (cases agent_type)
  case (PStr t)
  assume "agent_type \<notin> PStr ` fst ` set (registered_agents f)"
  then have "t \<notin> fst ` set (registered_agents f)"
    using PStr by blast
  then have "map_of (registered_agents f) t = None"
    by (simp add: map_of_eq_None_iff)
  then show ?thesis
    using PStr by (simp add: create_agent_def)
qed (simp_all add: create_agent_def)

text \<open>
  A configuration with an entry whose type is missing or unregistered never yields a
  mapping, whatever the constructors of the other entries do.
\<close>

lemma create_agent_team_loop_aborts:
  "(agent_name, config) \<in> set team_config \<Longrightarrow>
   \<not> truthy (dict_get config ''type'') \<or>
     (hashable (dict_get config ''type'') \<and> dict_get config ''type'' \<notin> PStr ` fst ` set (registered_agents f)) \<Longrightarrow>
   \<exists>e. fst (create_agent_team_loop f team_config agents s) = Inl e"
proof (induction f team_config agents s rule: create_agent_team_loop.induct)
  case (1 f agents s)
  then show ?case by simp
next
  case (2 f name cfg rest agents s)
  show ?case
  proof (cases "truthy (dict_get cfg ''type'')")
    case False
    then show ?thesis by simp
  next
    case True
    obtain r s' where c: "create_agent f (dict_get cfg ''type'') cfg s = (r, s')"
      by (cases "create_agent f (dict_get cfg ''type'') cfg s")
    show ?thesis
    proof (cases r)
      case (Inl e)
      then show ?thesis using True c by simp
    next
      case (Inr agent)
      have "(agent_name, config) \<noteq> (name, cfg)"
        using "2.prems"(2) True c Inr by (auto simp: create_agent_unregistered)
      then have "(agent_name, config) \<in> set rest"
        using "2.prems"(1) by auto
      then have "\<exists>e. fst (create_agent_team_loop f rest (agents(name \<mapsto> agent)) s') = Inl e"
        using "2.IH" [OF refl _ c [symmetric] Inr] True "2.prems"(2) by (simp del: fun_upd_apply)
      moreover have "create_agent_team_loop f ((name, cfg) # rest) agents s =
          create_agent_team_loop f rest (agents(name \<mapsto> agent)) s'"
        by (simp add: True c Inr)
      ultimately show ?thesis by (simp only:)
    qed
  qed
qed

text \<open>
  C8, as stated, at a configuration with two bad entries: \<open>a\<close> has no \<open>type\<close> field and \<open>b\<close>
  has an unregistered type. The loop stops at \<open>a\<close>: the error names the agent \<open>a\<close>, and the
  unknown type of \<open>b\<close> is not named.
\<close>

theorem create_agent_team_names_first_bad_entry_only:
  "create_agent_team example_factory
     [(''a'', []), (''b'', [(''type'', PStr ''unregistered_type'')])] 0 =
   (Inl (ValueError (Missing_type_field ''a'')), 0)"
  by (simp add: create_agent_team_def dict_get_def)

text \<open>
  C8. Let an entry of the team configuration have a \<open>type\<close> that is missing (absent, or
  false as a Python value) or unregistered (a hashable value that is no key of the
  registry). Then \<open>create_agent_team\<close> raises and returns no mapping. If the entries
  before it were constructed, the exception is the \<open>ValueError\<close> of this entry, and the
  state is the one those constructions left: its message names the agent's name when
  the type is missing, and the unknown type, with the registered ones, when it is
  unregistered.
\<close>

theorem create_agent_team_rejects_bad_entry:
  assumes "team_config = pre @ (agent_name, config) # rest"
    and "agent_type = dict_get config ''type''"
    and "\<not> truthy agent_type \<or>
         (hashable agent_type \<and> agent_type \<notin> PStr ` fst ` set (registered_agents f))"
  shows "(\<exists>e. fst (create_agent_team f team_config s) = Inl e) \<and>
         (\<forall>agents' s'. create_agent_team f pre s = (Inr agents', s') \<longrightarrow>
            create_agent_team f team_config s =
              (Inl (ValueError (if truthy agent_type
                                then Unknown_agent_type agent_type (map fst (registered_agents f))
                                else Missing_type_field agent_name)), s'))"
proof -
  have "(agent_name, config) \<in> set team_config"
    using assms(1) by simp
  then have abort: "\<exists>e. fst (create_agent_team f team_config s) = Inl e"
    unfolding create_agent_team_def using assms(2,3) by (intro create_agent_team_loop_aborts) auto
  have "create_agent_team f team_config s =
      (Inl (ValueError (if truthy agent_type
                        then Unknown_agent_type agent_type (map fst (registered_agents f))
                        else Missing_type_field agent_name)), s')"
    if "create_agent_team f pre s = (Inr agents', s')" for agents' s'
  proof (cases "truthy agent_type")
    case False
    then show ?thesis
      using that assms(1,2) by (simp add: create_agent_team_def create_agent_team_loop_append)
  next
    case True
    then have "create_agent f agent_type config s' =
        (Inl (ValueError (Unknown_agent_type agent_type (map fst (registered_agents f)))), s')"
      using assms(3) by (intro create_agent_unregistered) auto
    then show ?thesis
      using that assms(1,2) True by (simp add: create_agent_team_def create_agent_team_loop_append)
  qed
  with abort show ?thesis by blast
qed

theorem create_agent_team_rejects_bad_entry_witness:
  "create_agent_team example_factory
     [(''a'', [(''type'', PStr ''qa'')]), (''b'', [(''type'', PStr ''unregistered_type'')])] 0 =
   (Inl (ValueError (Unknown_agent_type (PStr ''unregistered_type'')
                       [''architect'', ''codegen'', ''qa'', ''docs''])), 1) \<and>
   create_agent_team example_factory [(''a'', [])] 0 = (Inl (ValueError (Missing_type_field ''a'')), 0)"
proof -
  have pre: "create_agent_team example_factory [(''a'', [(''type'', PStr ''qa'')])] 0 =
      (Inr [''a'' \<mapsto> (PStr ''qa_agent'', Some [(''type'', PStr ''qa'')])], 1)"
    by (simp add: create_agent_team_def dict_get_def create_agent_def example_factory_def example_class_def)
  have "create_agent_team example_factory
     ([(''a'', [(''type'', PStr ''qa'')])] @ (''b'', [(''type'', PStr ''unregistered_type'')]) # []) 0 =
     (Inl (ValueError (if truthy (PStr ''unregistered_type'')
        then Unknown_agent_type (PStr ''unregistered_type'') (map fst (registered_agents example_factory))
        else Missing_type_field ''b'')), 1)"
    using create_agent_team_rejects_bad_entry
      [of "[(''a'', [(''type'', PStr ''qa'')])] @ (''b'', [(''type'', PStr ''unregistered_type'')]) # []"
          "[(''a'', [(''type'', PStr ''qa'')])]" "''b''" "[(''type'', PStr ''unregistered_type'')]" "[]"
          "PStr ''unregistered_type''" example_factory 0]
      pre
    by (simp add: dict_get_def example_factory_def image_iff)
  moreover have "create_agent_team example_factory ([] @ (''a'', []) # []) 0 =
     (Inl (ValueError (if truthy PNone
        then Unknown_agent_type PNone (map fst (registered_agents example_factory))
        else Missing_type_field ''a'')), 0)"
    using create_agent_team_rejects_bad_entry
      [of "[] @ (''a'', []) # []" "[]" "''a''" "[]" "[]" PNone example_factory 0]
    by (simp add: dict_get_def create_agent_team_def)
  ultimately show ?thesis
    by (simp add: example_factory_def)
qed

end
